theory Spec2Isabelle
  imports Main "HOL-Library.Word"
begin

unbundle bit_operations_syntax

section \<open>The object-like macros of nvx.h\<close>

text \<open>
  The header defines its constants with \<^verbatim>\<open>#define\<close>. A macro is kept here as the
  expression the header writes, and its value is what the C compiler computes after the
  preprocessor has expanded every name inside it. A name with no definition does not
  expand, so the expression has no value (the translation unit does not compile).
\<close>

datatype cexpr =
    Lit int                 \<comment> \<open>an integer literal\<close>
  | Name string             \<comment> \<open>an identifier, to be expanded\<close>
  | UMinus cexpr            \<comment> \<open>\<^verbatim>\<open>-e\<close>\<close>
  | Shl cexpr cexpr         \<comment> \<open>\<^verbatim>\<open>a << b\<close>\<close>
  | BitOr cexpr cexpr       \<comment> \<open>\<^verbatim>\<open>a | b\<close>\<close>
  | IntOfFloat int nat      \<comment> \<open>\<^verbatim>\<open>(int)m.0eN\<close>: mantissa and decimal exponent\<close>

text \<open>The \<^verbatim>\<open>#define\<close> lines of nvx.h that define values, in the order of the file.\<close>

definition nvx_h_defines :: "(string \<times> cexpr) list" where
  "nvx_h_defines =
    [(''NVX_ERR_OK'', Lit 0),
     (''NVX_ERR_HANDLE'', UMinus (Lit 1)),
     (''NVX_ERR_PARAM'', UMinus (Lit 2)),
     (''NVX_ERR_FAIL'', UMinus (Lit 3)),
     (''NVX_ERR_DATA_RATE'', UMinus (Lit 4)),
     (''NVX_IMP_INVALID'', Name ''INT_MAX''),
     (''NVX_DEVICES_COUNT_MAX'', Lit 3),
     (''NVX_EL_LED_OFF'', Lit 0),
     (''NVX_EL_LED_GREEN'', Shl (Lit 1) (Lit 0)),
     (''NVX_EL_LED_RED'', Shl (Lit 1) (Lit 1)),
     (''NVX_EL_LED_YELLOW'', BitOr (Name ''AC_EL_LED_GREEN'') (Name ''AC_EL_LED_RED'')),
     (''NVX_EL_SWITCH_ON'', Shl (Lit 1) (Lit 2)),
     (''NVX_EL_SWITCH_OFF'', Shl (Lit 0) (Lit 2)),
     (''NVX_PLL_FREQ_MAX'', IntOfFloat 27 6)]"

text \<open>
  \<^verbatim>\<open>INT_MAX\<close> is not defined by nvx.h (its include section is empty): it comes from
  \<^verbatim>\<open><limits.h>\<close> of the platform, where \<^verbatim>\<open>int\<close> has 32 bits.
\<close>

definition limits_h :: "(string \<times> cexpr) list" where
  "limits_h = [(''INT_MAX'', Lit 2147483647)]"

text \<open>
  The value of an expression of type \<^verbatim>\<open>int\<close> (32 bits). The fuel bounds the depth of
  macro expansion. A shift is defined in C only for a non-negative left operand, a shift count
  below the width and a representable result.
\<close>

definition in_int_range :: "int \<Rightarrow> bool" where
  "in_int_range v = (- 2147483648 \<le> v \<and> v \<le> 2147483647)"

fun cvalue :: "nat \<Rightarrow> (string \<rightharpoonup> cexpr) \<Rightarrow> cexpr \<Rightarrow> int option" where
  "cvalue fuel env (Lit n) = (if in_int_range n then Some n else None)"
| "cvalue 0 env (Name x) = None"
| "cvalue (Suc fuel) env (Name x) =
     (case env x of None \<Rightarrow> None | Some e \<Rightarrow> cvalue fuel env e)"
| "cvalue fuel env (UMinus e) =
     (case cvalue fuel env e of
        None \<Rightarrow> None
      | Some v \<Rightarrow> if in_int_range (- v) then Some (- v) else None)"
| "cvalue fuel env (Shl a b) =
     (case (cvalue fuel env a, cvalue fuel env b) of
        (Some x, Some n) \<Rightarrow>
          if 0 \<le> x \<and> 0 \<le> n \<and> n < 32 \<and> in_int_range (x * 2 ^ nat n)
          then Some (x * 2 ^ nat n) else None
      | _ \<Rightarrow> None)"
| "cvalue fuel env (BitOr a b) =
     (case (cvalue fuel env a, cvalue fuel env b) of
        (Some x, Some y) \<Rightarrow> Some (x OR y)
      | _ \<Rightarrow> None)"
| "cvalue fuel env (IntOfFloat m e) =
     (if in_int_range (m * 10 ^ e) then Some (m * 10 ^ e) else None)"

text \<open>
  The value of an expression in a translation unit that includes nvx.h and also sees the
  definitions \<open>ext\<close> (other headers). The header's own definitions come first, as
  \<open>map_of\<close> takes the first entry of a name. The value of a macro is the value of its name.
\<close>

definition expr_value :: "(string \<times> cexpr) list \<Rightarrow> cexpr \<Rightarrow> int option" where
  "expr_value ext e =
     cvalue (Suc (length nvx_h_defines + length ext)) (map_of (nvx_h_defines @ ext)) e"

definition macro_value :: "(string \<times> cexpr) list \<Rightarrow> string \<Rightarrow> int option" where
  "macro_value ext x = expr_value ext (Name x)"


section \<open>The type declarations of nvx.h\<close>

text \<open>
  The types of structure fields, with their size and natural alignment on the platform of the
  library (Windows, \<^verbatim>\<open>__declspec\<close>): \<^verbatim>\<open>unsigned long long\<close> has 8 bytes;
  \<^verbatim>\<open>unsigned int\<close>, \<^verbatim>\<open>float\<close> and every enumeration type have 4.
\<close>

datatype ctype =
    ULongLong
  | UInt
  | Float
  | Enum string
  | Array ctype nat

fun sizeof :: "ctype \<Rightarrow> nat" where
  "sizeof ULongLong = 8"
| "sizeof UInt = 4"
| "sizeof Float = 4"
| "sizeof (Enum _) = 4"
| "sizeof (Array t n) = n * sizeof t"

fun alignof :: "ctype \<Rightarrow> nat" where
  "alignof ULongLong = 8"
| "alignof UInt = 4"
| "alignof Float = 4"
| "alignof (Enum _) = 4"
| "alignof (Array t n) = alignof t"

type_synonym cfield = "string \<times> ctype"

datatype hdecl =
    PragmaPackPush nat                        \<comment> \<open>\<^verbatim>\<open>#pragma pack(push, n)\<close>\<close>
  | PragmaPackPop                             \<comment> \<open>\<^verbatim>\<open>#pragma pack(pop)\<close>\<close>
  | TypedefStruct string "cfield list"
  | TypedefEnum string "(string \<times> int) list"

text \<open>The pragmas and type declarations of nvx.h, in the order of the file.\<close>

definition nvx_h_types :: "hdecl list" where
  "nvx_h_types =
    [PragmaPackPush 1,
     TypedefStruct ''t_NVXVersion''
       [(''Dll'', ULongLong), (''Driver'', ULongLong), (''Cypress'', ULongLong),
        (''McFpga'', ULongLong), (''Msp430'', ULongLong), (''CbFpga'', ULongLong)],
     TypedefEnum ''t_NVXMode''
       [(''NVX_MODE_NORMAL'', 0), (''NVX_MODE_ACTIVE_SHIELD'', 1), (''NVX_MODE_IMPEDANCE'', 2),
        (''NVX_MODE_TEST'', 3), (''NVX_MODE_GND'', 4), (''NVX_MODE_IMP_GND'', 5)],
     TypedefEnum ''t_NVXRate''
       [(''NVX_RATE_10KHZ'', 0), (''NVX_RATE_50KHZ'', 1), (''NVX_RATE_100KHZ'', 2)],
     TypedefEnum ''t_NVXAdcFilter''
       [(''NVX_ADC_NATIVE'', 0), (''NVX_ADC_AVERAGING_2'', 1)],
     TypedefEnum ''t_NVXDecimation''
       [(''NVX_DECIMATION_0'', 0), (''NVX_DECIMATION_2'', 2), (''NVX_DECIMATION_5'', 5),
        (''NVX_DECIMATION_10'', 10), (''NVX_DECIMATION_20'', 20), (''NVX_DECIMATION_40'', 40)],
     TypedefStruct ''t_NVXSettings''
       [(''Mode'', Enum ''t_NVXMode''), (''Rate'', Enum ''t_NVXRate''),
        (''AdcFilter'', Enum ''t_NVXAdcFilter''), (''Decimation'', Enum ''t_NVXDecimation'')],
     TypedefStruct ''t_NVXProperty''
       [(''CountEeg'', UInt), (''CountAux'', UInt), (''TriggersIn'', UInt),
        (''TriggersOut'', UInt), (''Rate'', Float), (''ResolutionEeg'', Float),
        (''ResolutionAux'', Float), (''RangeEeg'', Float), (''RangeAux'', Float)],
     TypedefEnum ''t_NVXGain''
       [(''NVX_GAIN_1'', 0), (''NVX_GAIN_5'', 1)],
     TypedefEnum ''t_NVXPowerSave''
       [(''NVX_POWER_SAVE_DISABLE'', 0), (''NVX_POWER_SAVE_ENABLE'', 1)],
     TypedefStruct ''t_NVXDataStatus''
       [(''Samples'', UInt), (''Errors'', UInt), (''Rate'', Float), (''Speed'', Float)],
     TypedefStruct ''t_NVXErrorStatus''
       [(''Samples'', UInt), (''Crc'', UInt), (''Counter'', UInt), (''Devices'', Array UInt 3)],
     TypedefStruct ''t_NVXImpedanceSetup''
       [(''Good'', UInt), (''Bad'', UInt), (''LedsDisable'', UInt), (''TimeOut'', UInt)],
     TypedefStruct ''t_NVXImpedanceMode''
       [(''Splitter'', UInt), (''Splitters'', UInt), (''Electrodes'', UInt),
        (''ElectrodeFrom'', UInt), (''ElectrodeTo'', UInt), (''Time'', UInt)],
     TypedefEnum ''t_NVXScanFreq''
       [(''NVX_SCAN_FREQ_30'', 0), (''NVX_SCAN_FREQ_80'', 1)],
     TypedefStruct ''t_NVXImpedanceSettings''
       [(''ScanFreq'', Enum ''t_NVXScanFreq'')],
     TypedefStruct ''t_NVXVoltages''
       [(''VDC'', Float), (''AVDD5A1'', Float), (''AVDD5A2'', Float), (''AVDD5AUX'', Float),
        (''DVDD3V3'', Float), (''DVDD1V8'', Float), (''DVDD1V2'', Float), (''AVCC1'', Float),
        (''AVCC2'', Float), (''AVCC3'', Float), (''AVCC4'', Float), (''Temperature'', Float)],
     TypedefStruct ''t_NVXFrequencyBandwidth''
       [(''SampleRate'', UInt), (''CutoffFreq'', UInt), (''DecimFromRate'', Enum ''t_NVXRate''),
        (''Decimation'', Enum ''t_NVXDecimation'')],
     PragmaPackPop,
     TypedefStruct ''t_NVXPll''
       [(''PllExternal'', UInt), (''AdcExternal'', UInt), (''PllFrequency'', UInt),
        (''Phase'', UInt), (''Status'', UInt)]]"

text \<open>
  The length of the array \<open>Devices\<close> is the macro \<^verbatim>\<open>NVX_DEVICES_COUNT_MAX\<close>, written
  out as 3 above; \<open>macro_value\<close> gives the same number.
\<close>

subsection \<open>Enumerations\<close>

fun enumerators :: "hdecl list \<Rightarrow> string \<Rightarrow> (string \<times> int) list option" where
  "enumerators [] t = None"
| "enumerators (TypedefEnum n es # ds) t = (if n = t then Some es else enumerators ds t)"
| "enumerators (_ # ds) t = enumerators ds t"

text \<open>The value of an enumerator of a type, and the enumerator that a value denotes.\<close>

definition enum_value :: "string \<Rightarrow> string \<Rightarrow> int option" where
  "enum_value t x = (case enumerators nvx_h_types t of None \<Rightarrow> None | Some es \<Rightarrow> map_of es x)"

definition enum_name :: "string \<Rightarrow> int \<Rightarrow> string option" where
  "enum_name t v =
     (case enumerators nvx_h_types t of
        None \<Rightarrow> None
      | Some es \<Rightarrow> map_of (map (\<lambda>(x, n). (n, x)) es) v)"

text \<open>
  The amplification an enumerator of \<^verbatim>\<open>t_NVXGain\<close> stands for, from the comments of its
  declaration (\<^verbatim>\<open>gain = 1\<close>, \<^verbatim>\<open>gain = 5\<close>).
\<close>

definition gain_factor :: "string \<Rightarrow> nat option" where
  "gain_factor x =
     (if x = ''NVX_GAIN_1'' then Some 1 else if x = ''NVX_GAIN_5'' then Some 5 else None)"

subsection \<open>Structure layout under \<^verbatim>\<open>#pragma pack\<close>\<close>

text \<open>
  The packing in force at each structure declaration: \<^verbatim>\<open>push\<close> saves the current value
  and sets a new one, \<^verbatim>\<open>pop\<close> restores the saved one. \<open>cur\<close> is the packing before the
  first line (the compiler's default).
\<close>

fun packings :: "nat \<Rightarrow> nat list \<Rightarrow> hdecl list \<Rightarrow> (string \<times> nat \<times> cfield list) list" where
  "packings cur st [] = []"
| "packings cur st (PragmaPackPush n # ds) = packings n (cur # st) ds"
| "packings cur st (PragmaPackPop # ds) =
     (case st of [] \<Rightarrow> packings cur [] ds | p # st' \<Rightarrow> packings p st' ds)"
| "packings cur st (TypedefStruct name fs # ds) = (name, cur, fs) # packings cur st ds"
| "packings cur st (TypedefEnum _ _ # ds) = packings cur st ds"

definition align_up :: "nat \<Rightarrow> nat \<Rightarrow> nat" where
  "align_up off a = ((off + a - 1) div a) * a"

text \<open>
  The compiler's layout rule: a field is placed at the next offset that is a multiple of
  the smaller of the packing and the field's alignment.
\<close>

fun field_offsets :: "nat \<Rightarrow> nat \<Rightarrow> cfield list \<Rightarrow> (string \<times> nat) list" where
  "field_offsets p off [] = []"
| "field_offsets p off ((x, t) # fs) =
     (let at = align_up off (min p (alignof t))
      in (x, at) # field_offsets p (at + sizeof t) fs)"

fun fields_end :: "nat \<Rightarrow> nat \<Rightarrow> cfield list \<Rightarrow> nat" where
  "fields_end p off [] = off"
| "fields_end p off ((x, t) # fs) =
     fields_end p (align_up off (min p (alignof t)) + sizeof t) fs"

definition struct_align :: "nat \<Rightarrow> cfield list \<Rightarrow> nat" where
  "struct_align p fs = min p (foldr max (map (alignof \<circ> snd) fs) 1)"

definition struct_size :: "nat \<Rightarrow> cfield list \<Rightarrow> nat" where
  "struct_size p fs = align_up (fields_end p 0 fs) (struct_align p fs)"

text \<open>A layout with no padding: every field starts where the one before it ends.\<close>

fun packed_offsets :: "nat \<Rightarrow> cfield list \<Rightarrow> (string \<times> nat) list" where
  "packed_offsets off [] = []"
| "packed_offsets off ((x, t) # fs) = (x, off) # packed_offsets (off + sizeof t) fs"

section \<open>The function declarations of nvx.h\<close>





section \<open>Sample records\<close>

type_synonym u8 = "8 word"
type_synonym u32 = "32 word"

text \<open>
  \<^verbatim>\<open>t_NVXProperty\<close>. The \<^verbatim>\<open>float\<close> fields are carried as their 32-bit patterns; nothing
  here computes with them.
\<close>

record t_NVXProperty =
  CountEeg :: u32
  CountAux :: u32
  TriggersIn :: u32
  TriggersOut :: u32
  Rate :: u32
  ResolutionEeg :: u32
  ResolutionAux :: u32
  RangeEeg :: u32
  RangeAux :: u32

text \<open>
  One sample, as the comment of \<^verbatim>\<open>NVXGetData\<close> lists its fields: the data of the N EEG
  channels and of the M auxiliary channels (\<^verbatim>\<open>signed int\<close>, read from a word with
  \<open>sint\<close>), then \<open>Status\<close> and \<open>Counter\<close> (\<^verbatim>\<open>unsigned int\<close>).
\<close>

record sample =
  eeg :: "u32 list"
  aux :: "u32 list"
  Status :: u32
  Counter :: u32

text \<open>The bytes of a 32-bit value in memory (the platform is little-endian) and back.\<close>

definition le32 :: "u32 \<Rightarrow> u8 list" where
  "le32 w = [ucast w, ucast (drop_bit 8 w), ucast (drop_bit 16 w), ucast (drop_bit 24 w)]"

definition word_le32 :: "u8 \<Rightarrow> u8 \<Rightarrow> u8 \<Rightarrow> u8 \<Rightarrow> u32" where
  "word_le32 b0 b1 b2 b3 =
     ucast b0 OR push_bit 8 (ucast b1) OR push_bit 16 (ucast b2) OR push_bit 24 (ucast b3)"

text \<open>Reading an \<^verbatim>\<open>unsigned int\<close> at a byte offset of a buffer; \<open>None\<close> past its end.\<close>

definition read_u32 :: "u8 list \<Rightarrow> nat \<Rightarrow> u32 option" where
  "read_u32 bs off =
     (case take 4 (drop off bs) of
        [b0, b1, b2, b3] \<Rightarrow> Some (word_le32 b0 b1 b2 b3)
      | _ \<Rightarrow> None)"

text \<open>
  The data format of \<^verbatim>\<open>NVXGetData\<close>: channel \<open>i\<close> at offset \<open>4 * i\<close>, auxiliary
  channel \<open>j\<close> at \<open>N * 4 + 4 * j\<close>, \<open>Status\<close> at \<open>N * 4 + M * 4\<close> and \<open>Counter\<close> at
  \<open>N * 4 + M * 4 + 4\<close>.
\<close>

definition sample_cells :: "sample \<Rightarrow> u32 list" where
  "sample_cells r = eeg r @ aux r @ [Status r, Counter r]"

definition sample_bytes :: "sample \<Rightarrow> u8 list" where
  "sample_bytes r = concat (map le32 (sample_cells r))"

text \<open>A sample of a device has as many channel values as \<^verbatim>\<open>NVXGetProperty\<close> reports.\<close>

definition well_formed :: "t_NVXProperty \<Rightarrow> sample \<Rightarrow> bool" where
  "well_formed prop r =
     (length (eeg r) = unat (CountEeg prop) \<and> length (aux r) = unat (CountAux prop))"

definition record_size :: "t_NVXProperty \<Rightarrow> nat" where
  "record_size prop = (unat (CountEeg prop) + unat (CountAux prop) + 2) * sizeof UInt"

section \<open>The functions of the library\<close>

text \<open>
  nvx.h declares the functions of the library; their bodies are in the library's binary,
  which is not among the sources. The error codes below are the values of the header's macros
  (lemma \<open>error_code_constants\<close>).
\<close>

definition NVX_ERR_OK :: int where "NVX_ERR_OK = 0"
definition NVX_ERR_HANDLE :: int where "NVX_ERR_HANDLE = - 1"
definition NVX_ERR_PARAM :: int where "NVX_ERR_PARAM = - 2"
definition NVX_ERR_FAIL :: int where "NVX_ERR_FAIL = - 3"
definition NVX_ERR_DATA_RATE :: int where "NVX_ERR_DATA_RATE = - 4"

text \<open>
  Modelled from the spec: the Sample Ring Buffer of section 4.1, whose code is in the
  library's binary. A bounded queue of samples, oldest first; the spec gives no capacity, so
  it is a field. \<open>push\<close> never blocks: on a full buffer the oldest unread sample is dropped
  and the overflow counter is incremented.
\<close>

record ring_buffer =
  queue :: "sample list"
  capacity :: nat
  overflow :: nat

definition push :: "sample \<Rightarrow> ring_buffer \<Rightarrow> ring_buffer" where
  "push r b =
     (if length (queue b) < capacity b then b\<lparr>queue := queue b @ [r]\<rparr>
      else b\<lparr>queue := drop 1 (queue b @ [r]), overflow := overflow b + 1\<rparr>)"

text \<open>
  Modelled from the spec: \<open>drain(maxBytes)\<close> of section 4.1. It returns as many whole
  records as fit within \<open>maxBytes\<close> and removes them from the buffer.
\<close>

definition drain :: "nat \<Rightarrow> nat \<Rightarrow> ring_buffer \<Rightarrow> sample list \<times> ring_buffer" where
  "drain maxBytes rsize b =
     (let n = min (length (queue b)) (maxBytes div rsize)
      in (take n (queue b), b\<lparr>queue := drop n (queue b)\<rparr>))"

text \<open>
  Modelled from the spec: the state of one open device (sections 3 and 4), as far as the
  functions below use it: its property, its ring buffer and the total of samples handed to
  the host (\<open>DataStatus.Samples\<close>; the rate and speed of the data status are
  floating-point measurements against the wall clock and are left out).
\<close>

record device =
  Property :: t_NVXProperty
  ring :: ring_buffer
  Samples :: u32

text \<open>
  Modelled from the spec: the table of open devices, which the library keeps behind
  \<^verbatim>\<open>NVXOpen\<close> and \<^verbatim>\<open>NVXClose\<close>. A device handle is an address, \<open>0\<close> for
  \<^verbatim>\<open>NULL\<close>; a handle that is not in the table is invalid.
\<close>

type_synonym handle = nat
type_synonym driver = "handle \<rightharpoonup> device"

definition lookup :: "driver \<Rightarrow> handle \<Rightarrow> device option" where
  "lookup drv hDevice = (if hDevice = 0 then None else drv hDevice)"

text \<open>
  Modelled from the spec: the acquisition thread hands one decoded sample of a device to
  its ring buffer (section 2, data flow).
\<close>

definition acquire :: "handle \<Rightarrow> sample \<Rightarrow> driver \<Rightarrow> driver" where
  "acquire hDevice r drv =
     (case lookup drv hDevice of
        None \<Rightarrow> drv
      | Some d \<Rightarrow> drv(hDevice \<mapsto> d\<lparr>ring := push r (ring d)\<rparr>))"

text \<open>A byte count as the \<^verbatim>\<open>int\<close> a function returns (32 bits, two's complement).\<close>

definition int_result :: "nat \<Rightarrow> int" where
  "int_result n = sint (word_of_nat n :: 32 word)"

text \<open>
  Modelled from the spec: the body of \<^verbatim>\<open>NVXGetData\<close> (section 4.1 and the host poll
  contract of section 6); nvx.h has its declaration and the data format. The result is the
  return value, the bytes copied to \<open>Buffer\<close> (of \<open>Size\<close> bytes) and the new state.
\<close>

definition NVXGetData :: "driver \<Rightarrow> handle \<Rightarrow> u32 \<Rightarrow> int \<times> u8 list \<times> driver" where
  "NVXGetData drv hDevice Size =
     (case lookup drv hDevice of
        None \<Rightarrow> (NVX_ERR_HANDLE, [], drv)
      | Some d \<Rightarrow>
          (case drain (unat Size) (record_size (Property d)) (ring d) of
             (rs, b) \<Rightarrow>
               (int_result (length (concat (map sample_bytes rs))),
                concat (map sample_bytes rs),
                drv(hDevice \<mapsto> d\<lparr>ring := b, Samples := Samples d + word_of_nat (length rs)\<rparr>))))"

section \<open>A device with 32 EEG and 8 auxiliary channels\<close>

text \<open>A concrete device, open under handle 1, and the samples of its ticks.\<close>

definition property_32_8 :: t_NVXProperty where
  "property_32_8 =
     \<lparr>CountEeg = 32, CountAux = 8, TriggersIn = 8, TriggersOut = 8, Rate = 0,
      ResolutionEeg = 0, ResolutionAux = 0, RangeEeg = 0, RangeAux = 0\<rparr>"

definition device_32_8 :: device where
  "device_32_8 =
     \<lparr>Property = property_32_8, ring = \<lparr>queue = [], capacity = 1024, overflow = 0\<rparr>,
      Samples = 0\<rparr>"

definition driver_32_8 :: driver where
  "driver_32_8 = [1 \<mapsto> device_32_8]"

definition tick :: "nat \<Rightarrow> sample" where
  "tick k = \<lparr>eeg = replicate 32 (word_of_nat k), aux = replicate 8 0, Status = 0,
             Counter = word_of_nat k\<rparr>"

section \<open>Theorems\<close>

lemma macro_value_NVX_IMP_INVALID:
  "macro_value limits_h ''NVX_IMP_INVALID'' = Some (2 ^ 31 - 1)"
  by (simp add: macro_value_def expr_value_def nvx_h_defines_def limits_h_def in_int_range_def)




subsection \<open>Electrode state constants\<close>

lemma electrode_constants:
  "map (macro_value ext)
     [''NVX_EL_LED_OFF'', ''NVX_EL_LED_GREEN'', ''NVX_EL_LED_RED'',
      ''NVX_EL_SWITCH_ON'', ''NVX_EL_SWITCH_OFF'']
   = [Some 0, Some 1, Some 2, Some 4, Some 0]"
  by (simp add: macro_value_def expr_value_def nvx_h_defines_def in_int_range_def)

text \<open>
  With the two names \<^verbatim>\<open>AC_EL_LED_GREEN\<close> and \<^verbatim>\<open>AC_EL_LED_RED\<close> defined by another
  header, \<^verbatim>\<open>NVX_EL_LED_YELLOW\<close> is whatever those definitions make it.
\<close>

lemma led_yellow_follows_foreign_names:
  "macro_value [(''AC_EL_LED_GREEN'', Lit g), (''AC_EL_LED_RED'', Lit r)] ''NVX_EL_LED_YELLOW''
   = (if in_int_range g \<and> in_int_range r then Some (g OR r) else None)"
  by (simp add: macro_value_def expr_value_def nvx_h_defines_def)

text \<open>
  C6. The header gives \<^verbatim>\<open>NVX_EL_LED_OFF\<close> = 0, \<^verbatim>\<open>NVX_EL_LED_GREEN\<close> = 1,
  \<^verbatim>\<open>NVX_EL_LED_RED\<close> = 2, \<^verbatim>\<open>NVX_EL_SWITCH_ON\<close> = 4 and \<^verbatim>\<open>NVX_EL_SWITCH_OFF\<close> = 0,
  and the expression \<^verbatim>\<open>NVX_EL_LED_GREEN | NVX_EL_LED_RED\<close> is 3. The macro
  \<^verbatim>\<open>NVX_EL_LED_YELLOW\<close> however is written with the names \<^verbatim>\<open>AC_EL_LED_GREEN\<close> and
  \<^verbatim>\<open>AC_EL_LED_RED\<close>, which the header does not define: with nvx.h alone, or with
  \<^verbatim>\<open><limits.h>\<close> beside it, \<^verbatim>\<open>NVX_EL_LED_YELLOW\<close> has no value.
\<close>

theorem led_yellow_has_no_value:
  "macro_value [] ''NVX_EL_LED_YELLOW'' = None
   \<and> macro_value limits_h ''NVX_EL_LED_YELLOW'' = None
   \<and> macro_value [] ''NVX_EL_LED_GREEN'' = Some 1
   \<and> macro_value [] ''NVX_EL_LED_RED'' = Some 2
   \<and> expr_value [] (BitOr (Name ''NVX_EL_LED_GREEN'') (Name ''NVX_EL_LED_RED'')) = Some 3"
  by (simp add: macro_value_def expr_value_def nvx_h_defines_def limits_h_def in_int_range_def)

subsection \<open>The gain enumeration\<close>

text \<open>
  C8. \<^verbatim>\<open>t_NVXGain\<close> has exactly the enumerators \<^verbatim>\<open>NVX_GAIN_1\<close> = 0 (gain 1) and
  \<^verbatim>\<open>NVX_GAIN_5\<close> = 1 (gain 5): the argument of \<^verbatim>\<open>NVXSetAuxGain\<close> is the code, not the
  gain. The integer 5 is the value of no enumerator of the type.
\<close>

theorem gain_is_a_code_not_a_factor:
  "enumerators nvx_h_types ''t_NVXGain'' = Some [(''NVX_GAIN_1'', 0), (''NVX_GAIN_5'', 1)]
   \<and> enum_value ''t_NVXGain'' ''NVX_GAIN_1'' = Some 0 \<and> gain_factor ''NVX_GAIN_1'' = Some 1
   \<and> enum_value ''t_NVXGain'' ''NVX_GAIN_5'' = Some 1 \<and> gain_factor ''NVX_GAIN_5'' = Some 5
   \<and> enum_name ''t_NVXGain'' 5 = None
   \<and> (\<forall>x. enum_value ''t_NVXGain'' x \<noteq> Some 5)"
  by (simp add: enum_value_def enum_name_def gain_factor_def nvx_h_types_def)

subsection \<open>Structure layout\<close>

lemma alignof_pos: "0 < alignof t"
  by (induction t) auto

lemma min_pack1: "min (Suc 0) (alignof t) = Suc 0"
  using alignof_pos [of t] by simp

lemma align_up_1: "align_up off (Suc 0) = off"
  by (simp add: align_up_def)

lemma field_offsets_pack1: "field_offsets (Suc 0) off fs = packed_offsets off fs"
  by (induction fs arbitrary: off) (auto simp: align_up_1 min_pack1 Let_def)

lemma fields_end_pack1: "fields_end (Suc 0) off fs = off + sum_list (map (sizeof \<circ> snd) fs)"
  by (induction fs arbitrary: off) (auto simp: align_up_1 min_pack1)

lemma foldr_max_ge: "(b::nat) \<le> foldr max xs b"
  by (induction xs) auto

lemma struct_align_pack1: "struct_align (Suc 0) fs = Suc 0"
  using foldr_max_ge [of 1 "map (alignof \<circ> snd) fs"] by (simp add: struct_align_def)

lemma struct_size_pack1: "struct_size (Suc 0) fs = sum_list (map (sizeof \<circ> snd) fs)"
  by (simp add: struct_size_def struct_align_pack1 fields_end_pack1 align_up_1)

lemma packed_offsets_nth:
  "i < length fs \<Longrightarrow>
   packed_offsets off fs ! i = (fst (fs ! i), off + sum_list (map (sizeof \<circ> snd) (take i fs)))"
proof (induction fs arbitrary: i off)
  case Nil
  then show ?case by simp
next
  case (Cons f fs)
  obtain x t where f: "f = (x, t)" by (cases f)
  show ?case
  proof (cases i)
    case 0
    then show ?thesis by (simp add: f)
  next
    case (Suc j)
    with Cons.prems have "j < length fs" by simp
    from Cons.IH [OF this, of "off + sizeof t"] Suc show ?thesis
      by (simp add: f)
  qed
qed

lemma packings_nvx_h:
  "map (\<lambda>(n, p, fs). (n, p)) (packings dp [] nvx_h_types) =
     [(''t_NVXVersion'', 1), (''t_NVXSettings'', 1), (''t_NVXProperty'', 1),
      (''t_NVXDataStatus'', 1), (''t_NVXErrorStatus'', 1), (''t_NVXImpedanceSetup'', 1),
      (''t_NVXImpedanceMode'', 1), (''t_NVXImpedanceSettings'', 1), (''t_NVXVoltages'', 1),
      (''t_NVXFrequencyBandwidth'', 1), (''t_NVXPll'', dp)]"
  by (simp add: nvx_h_types_def)

text \<open>
  \<^verbatim>\<open>t_NVXPll\<close> is declared after \<^verbatim>\<open>#pragma pack(pop)\<close>, under the compiler's default
  packing. Its five fields are all \<^verbatim>\<open>unsigned int\<close>, so it has no padding either under
  any packing the compiler offers.
\<close>

lemma t_NVXPll_layout:
  assumes "dp = 1 \<or> dp = 2 \<or> dp = 4 \<or> dp = 8 \<or> dp = 16"
  shows "(''t_NVXPll'', dp,
            [(''PllExternal'', UInt), (''AdcExternal'', UInt), (''PllFrequency'', UInt),
             (''Phase'', UInt), (''Status'', UInt)]) \<in> set (packings dp [] nvx_h_types)
         \<and> field_offsets dp 0
             [(''PllExternal'', UInt), (''AdcExternal'', UInt), (''PllFrequency'', UInt),
              (''Phase'', UInt), (''Status'', UInt)]
           = [(''PllExternal'', 0), (''AdcExternal'', 4), (''PllFrequency'', 8),
              (''Phase'', 12), (''Status'', 16)]
         \<and> struct_size dp
             [(''PllExternal'', UInt), (''AdcExternal'', UInt), (''PllFrequency'', UInt),
              (''Phase'', UInt), (''Status'', UInt)] = 20"
proof -
  have mem: "(''t_NVXPll'', dp,
            [(''PllExternal'', UInt), (''AdcExternal'', UInt), (''PllFrequency'', UInt),
             (''Phase'', UInt), (''Status'', UInt)]) \<in> set (packings dp [] nvx_h_types)"
    by (simp add: nvx_h_types_def)
  from assms have "field_offsets dp 0
             [(''PllExternal'', UInt), (''AdcExternal'', UInt), (''PllFrequency'', UInt),
              (''Phase'', UInt), (''Status'', UInt)]
           = [(''PllExternal'', 0), (''AdcExternal'', 4), (''PllFrequency'', 8),
              (''Phase'', 12), (''Status'', 16)]
         \<and> struct_size dp
             [(''PllExternal'', UInt), (''AdcExternal'', UInt), (''PllFrequency'', UInt),
              (''Phase'', UInt), (''Status'', UInt)] = 20"
    by (elim disjE; simp add: align_up_def struct_size_def struct_align_def)
  with mem show ?thesis by simp
qed

text \<open>
  C10. The ten structures from \<^verbatim>\<open>t_NVXVersion\<close> to \<^verbatim>\<open>t_NVXFrequencyBandwidth\<close> are
  declared between \<^verbatim>\<open>#pragma pack(push, 1)\<close> and \<^verbatim>\<open>#pragma pack(pop)\<close>: whatever the
  compiler's default packing \<open>dp\<close>, the packing in force at each of them is 1, the offset of
  every field is the sum of the sizes of the fields before it, and the size of the structure
  is the sum of the sizes of its fields.
\<close>

theorem public_structs_packed:
  "map fst (packings dp [] nvx_h_types) =
     [''t_NVXVersion'', ''t_NVXSettings'', ''t_NVXProperty'', ''t_NVXDataStatus'',
      ''t_NVXErrorStatus'', ''t_NVXImpedanceSetup'', ''t_NVXImpedanceMode'',
      ''t_NVXImpedanceSettings'', ''t_NVXVoltages'', ''t_NVXFrequencyBandwidth'', ''t_NVXPll'']
   \<and> (\<forall>name p fs.
         (name, p, fs) \<in> set (packings dp [] nvx_h_types)
         \<and> name \<in> set [''t_NVXVersion'', ''t_NVXSettings'', ''t_NVXProperty'',
              ''t_NVXDataStatus'', ''t_NVXErrorStatus'', ''t_NVXImpedanceSetup'',
              ''t_NVXImpedanceMode'', ''t_NVXImpedanceSettings'', ''t_NVXVoltages'',
              ''t_NVXFrequencyBandwidth'']
         \<longrightarrow> p = 1
           \<and> length (field_offsets p 0 fs) = length fs
           \<and> (\<forall>i < length fs.
                 field_offsets p 0 fs ! i
                 = (fst (fs ! i), sum_list (map (sizeof \<circ> snd) (take i fs))))
           \<and> struct_size p fs = sum_list (map (sizeof \<circ> snd) fs))"
proof -
  have names: "map fst (packings dp [] nvx_h_types) =
     [''t_NVXVersion'', ''t_NVXSettings'', ''t_NVXProperty'', ''t_NVXDataStatus'',
      ''t_NVXErrorStatus'', ''t_NVXImpedanceSetup'', ''t_NVXImpedanceMode'',
      ''t_NVXImpedanceSettings'', ''t_NVXVoltages'', ''t_NVXFrequencyBandwidth'', ''t_NVXPll'']"
    by (simp add: nvx_h_types_def)
  have pack: "p = Suc 0"
    if "(name, p, fs) \<in> set (packings dp [] nvx_h_types)" "name \<noteq> ''t_NVXPll''"
    for name p fs
    using that by (auto simp: nvx_h_types_def)
  have len: "length (packed_offsets off fs) = length fs" for off fs
    by (induction fs arbitrary: off) auto
  have layout: "length (field_offsets (Suc 0) 0 fs) = length fs
      \<and> (\<forall>i < length fs.
            field_offsets (Suc 0) 0 fs ! i
            = (fst (fs ! i), sum_list (map (sizeof \<circ> snd) (take i fs))))
      \<and> struct_size (Suc 0) fs = sum_list (map (sizeof \<circ> snd) fs)" for fs
    by (simp add: field_offsets_pack1 len packed_offsets_nth struct_size_pack1)
  show ?thesis
  proof (intro conjI allI impI)
    show "map fst (packings dp [] nvx_h_types) =
     [''t_NVXVersion'', ''t_NVXSettings'', ''t_NVXProperty'', ''t_NVXDataStatus'',
      ''t_NVXErrorStatus'', ''t_NVXImpedanceSetup'', ''t_NVXImpedanceMode'',
      ''t_NVXImpedanceSettings'', ''t_NVXVoltages'', ''t_NVXFrequencyBandwidth'', ''t_NVXPll'']"
      by (rule names)
  next
    fix name p fs
    assume h: "(name, p, fs) \<in> set (packings dp [] nvx_h_types)
         \<and> name \<in> set [''t_NVXVersion'', ''t_NVXSettings'', ''t_NVXProperty'',
              ''t_NVXDataStatus'', ''t_NVXErrorStatus'', ''t_NVXImpedanceSetup'',
              ''t_NVXImpedanceMode'', ''t_NVXImpedanceSettings'', ''t_NVXVoltages'',
              ''t_NVXFrequencyBandwidth'']"
    then have "name \<noteq> ''t_NVXPll''" by auto
    with h have p: "p = Suc 0" using pack by blast
    show "p = 1" using p by simp
    show "length (field_offsets p 0 fs) = length fs" using p layout by simp
    show "struct_size p fs = sum_list (map (sizeof \<circ> snd) fs)" using p layout by simp
    fix i assume "i < length fs"
    then show "field_offsets p 0 fs ! i
                 = (fst (fs ! i), sum_list (map (sizeof \<circ> snd) (take i fs)))"
      using p layout by simp
  qed
qed

theorem public_structs_packed_witness:
  "(''t_NVXErrorStatus'', 1,
      [(''Samples'', UInt), (''Crc'', UInt), (''Counter'', UInt), (''Devices'', Array UInt 3)])
     \<in> set (packings 8 [] nvx_h_types)
   \<and> field_offsets 1 0
       [(''Samples'', UInt), (''Crc'', UInt), (''Counter'', UInt), (''Devices'', Array UInt 3)] ! 3
     = (''Devices'', 12)
   \<and> struct_size 1
       [(''Samples'', UInt), (''Crc'', UInt), (''Counter'', UInt), (''Devices'', Array UInt 3)]
     = 24"
proof -
  let ?fs = "[(''Samples'', UInt), (''Crc'', UInt), (''Counter'', UInt), (''Devices'', Array UInt 3)]"
  have mem: "(''t_NVXErrorStatus'', 1, ?fs) \<in> set (packings 8 [] nvx_h_types)"
    by (simp add: nvx_h_types_def)
  have prem: "(''t_NVXErrorStatus'', 1, ?fs) \<in> set (packings 8 [] nvx_h_types)
         \<and> ''t_NVXErrorStatus'' \<in> set [''t_NVXVersion'', ''t_NVXSettings'', ''t_NVXProperty'',
              ''t_NVXDataStatus'', ''t_NVXErrorStatus'', ''t_NVXImpedanceSetup'',
              ''t_NVXImpedanceMode'', ''t_NVXImpedanceSettings'', ''t_NVXVoltages'',
              ''t_NVXFrequencyBandwidth'']"
    using mem by simp
  note r = public_structs_packed [of 8, THEN conjunct2, rule_format, OF prem]
  from r have off: "\<forall>i<length ?fs. field_offsets 1 0 ?fs ! i
                 = (fst (?fs ! i), sum_list (map (sizeof \<circ> snd) (take i ?fs)))"
    by (elim conjE)
  from r have sz: "struct_size 1 ?fs = sum_list (map (sizeof \<circ> snd) ?fs)"
    by (elim conjE)
  have "field_offsets 1 0 ?fs ! 3 = (fst (?fs ! 3), sum_list (map (sizeof \<circ> snd) (take 3 ?fs)))"
    using off [rule_format, of 3] by simp
  then have o3: "field_offsets 1 0 ?fs ! 3 = (''Devices'', 12)"
    by (simp add: numeral_3_eq_3)
  have "struct_size 1 ?fs = 24"
    unfolding sz by simp
  with mem o3 show ?thesis by blast
qed

subsection \<open>Sample records and \<^verbatim>\<open>NVXGetData\<close>\<close>

lemma error_code_constants:
  "map (macro_value ext) [''NVX_ERR_OK'', ''NVX_ERR_HANDLE'', ''NVX_ERR_PARAM'', ''NVX_ERR_FAIL'', ''NVX_ERR_DATA_RATE'']
   = map Some [NVX_ERR_OK, NVX_ERR_HANDLE, NVX_ERR_PARAM, NVX_ERR_FAIL, NVX_ERR_DATA_RATE]"
  by (simp add: macro_value_def expr_value_def nvx_h_defines_def in_int_range_def
      NVX_ERR_OK_def NVX_ERR_HANDLE_def NVX_ERR_PARAM_def NVX_ERR_FAIL_def NVX_ERR_DATA_RATE_def)

lemma word_le32_le32:
  "word_le32 (ucast w) (ucast (drop_bit 8 w)) (ucast (drop_bit 16 w)) (ucast (drop_bit 24 w)) = w"
  unfolding word_le32_def
proof (rule bit_word_eqI)
  fix n :: nat
  assume "n < LENGTH(32)"
  then consider "n < 8" | "8 \<le> n" "n < 16" | "16 \<le> n" "n < 24" | "24 \<le> n" "n < 32"
    by fastforce
  then show "bit (ucast (ucast w :: u8) OR push_bit 8 (ucast (ucast (drop_bit 8 w) :: u8))
        OR push_bit 16 (ucast (ucast (drop_bit 16 w) :: u8))
        OR push_bit 24 (ucast (ucast (drop_bit 24 w) :: u8)) :: u32) n = bit w n"
    by cases (simp_all add: bit_simps, arith+)
qed

lemma length_le32: "length (le32 w) = 4"
  by (simp add: le32_def)

lemma length_concat_le32: "length (concat (map le32 ws)) = 4 * length ws"
  by (induction ws) (auto simp: length_le32)

lemma read_u32_le32_append: "read_u32 (le32 w @ bs) 0 = Some w"
  by (simp add: read_u32_def le32_def word_le32_le32)

lemma read_u32_cells: "i < length ws \<Longrightarrow> read_u32 (concat (map le32 ws)) (4 * i) = Some (ws ! i)"
proof (induction ws arbitrary: i)
  case Nil
  then show ?case by simp
next
  case (Cons w ws)
  show ?case
  proof (cases i)
    case 0
    then show ?thesis
      using read_u32_le32_append [of w "concat (map le32 ws)"] by simp
  next
    case (Suc j)
    with Cons.prems have j: "j < length ws" by simp
    have "drop (4 * Suc j) (le32 w @ concat (map le32 ws)) = drop (4 * j) (concat (map le32 ws))"
      by (simp add: length_le32)
    with Cons.IH [OF j] Suc show ?thesis
      by (simp add: read_u32_def)
  qed
qed

lemma length_sample_bytes:
  "well_formed prop r \<Longrightarrow> length (sample_bytes r) = record_size prop"
  by (simp add: well_formed_def sample_bytes_def sample_cells_def record_size_def
      length_concat_le32 length_le32)

lemma length_concat_samples:
  "\<forall>r\<in>set rs. well_formed prop r \<Longrightarrow>
   length (concat (map sample_bytes rs)) = length rs * record_size prop"
  by (induction rs) (auto simp: length_sample_bytes)

lemma fold_push:
  "length (queue b) + length rs \<le> capacity b \<Longrightarrow> fold push rs b = b\<lparr>queue := queue b @ rs\<rparr>"
proof (induction rs arbitrary: b)
  case Nil
  then show ?case by simp
next
  case (Cons r rs)
  then have "push r b = b\<lparr>queue := queue b @ [r]\<rparr>"
    by (simp add: push_def)
  moreover from Cons.prems have "length (queue (b\<lparr>queue := queue b @ [r]\<rparr>)) + length rs
       \<le> capacity (b\<lparr>queue := queue b @ [r]\<rparr>)"
    by simp
  ultimately show ?case
    using Cons.IH [of "b\<lparr>queue := queue b @ [r]\<rparr>"] by simp
qed

lemma push_bounded: "length (queue b) \<le> capacity b \<Longrightarrow> length (queue (push r b)) \<le> capacity (push r b)"
  by (auto simp: push_def)

lemma fold_acquire:
  "lookup drv h = Some d \<Longrightarrow>
   fold (acquire h) rs drv = drv(h \<mapsto> d\<lparr>ring := fold push rs (ring d)\<rparr>)"
proof (induction rs arbitrary: drv d)
  case Nil
  then show ?case by (auto simp: lookup_def split: if_splits)
next
  case (Cons r rs)
  let ?d = "d\<lparr>ring := push r (ring d)\<rparr>"
  from Cons.prems have h: "h \<noteq> 0" by (auto simp: lookup_def split: if_splits)
  from Cons.prems have a: "acquire h r drv = drv(h \<mapsto> ?d)"
    by (simp add: acquire_def)
  from h have "lookup (drv(h \<mapsto> ?d)) h = Some ?d"
    by (simp add: lookup_def)
  then have "fold (acquire h) rs (drv(h \<mapsto> ?d))
      = (drv(h \<mapsto> ?d))(h \<mapsto> ?d\<lparr>ring := fold push rs (ring ?d)\<rparr>)"
    by (rule Cons.IH)
  then show ?case by (simp add: a)
qed


lemma drain_all:
  "0 < rsize \<Longrightarrow> length (queue b) * rsize \<le> maxBytes \<Longrightarrow>
   drain maxBytes rsize b = (queue b, b\<lparr>queue := []\<rparr>)"
proof -
  assume r: "0 < rsize" and fit: "length (queue b) * rsize \<le> maxBytes"
  then have "length (queue b) \<le> maxBytes div rsize"
    by (simp add: less_eq_div_iff_mult_less_eq)
  then show ?thesis by (simp add: drain_def min_def)
qed

lemma drain_empty: "queue b = [] \<Longrightarrow> drain maxBytes rsize b = ([], b)"
  by (simp add: drain_def)

lemma push_full:
  "0 < capacity b \<Longrightarrow> length (queue b) = capacity b \<Longrightarrow>
   queue (push r b) = tl (queue b) @ [r] \<and> overflow (push r b) = overflow b + 1"
  by (cases "queue b") (auto simp: push_def)

lemma sample_layout:
  assumes wf: "well_formed prop r"
  shows "length (sample_bytes r) = (unat (CountEeg prop) + unat (CountAux prop) + 2) * 4"
    and "\<forall>i < unat (CountEeg prop). read_u32 (sample_bytes r) (4 * i) = Some (eeg r ! i)"
    and "\<forall>j < unat (CountAux prop).
           read_u32 (sample_bytes r) (unat (CountEeg prop) * 4 + 4 * j) = Some (aux r ! j)"
    and "read_u32 (sample_bytes r) (unat (CountEeg prop) * 4 + unat (CountAux prop) * 4)
           = Some (Status r)"
    and "read_u32 (sample_bytes r) (unat (CountEeg prop) * 4 + unat (CountAux prop) * 4 + 4)
           = Some (Counter r)"
proof -
  let ?N = "unat (CountEeg prop)" and ?M = "unat (CountAux prop)"
  let ?cs = "sample_cells r"
  from wf have N: "length (eeg r) = ?N" and M: "length (aux r) = ?M"
    by (simp_all add: well_formed_def)
  have len: "length ?cs = ?N + ?M + 2"
    by (simp add: sample_cells_def N M)
  have rd: "read_u32 (sample_bytes r) (4 * k) = Some (?cs ! k)" if "k < ?N + ?M + 2" for k
    using that len by (simp add: sample_bytes_def read_u32_cells)
  show "length (sample_bytes r) = (?N + ?M + 2) * 4"
    using length_sample_bytes [OF wf] by (simp add: record_size_def)
  show "\<forall>i < ?N. read_u32 (sample_bytes r) (4 * i) = Some (eeg r ! i)"
  proof (intro allI impI)
    fix i assume i: "i < ?N"
    then have "?cs ! i = eeg r ! i"
      by (simp add: sample_cells_def nth_append N)
    with rd [of i] i show "read_u32 (sample_bytes r) (4 * i) = Some (eeg r ! i)" by simp
  qed
  show "\<forall>j < ?M. read_u32 (sample_bytes r) (?N * 4 + 4 * j) = Some (aux r ! j)"
  proof (intro allI impI)
    fix j assume j: "j < ?M"
    then have "?cs ! (?N + j) = aux r ! j"
      by (simp add: sample_cells_def nth_append N M)
    moreover have "?N * 4 + 4 * j = 4 * (?N + j)" by simp
    ultimately show "read_u32 (sample_bytes r) (?N * 4 + 4 * j) = Some (aux r ! j)"
      using rd [of "?N + j"] j by (simp add: ac_simps)
  qed
  have "?cs ! (?N + ?M) = Status r"
    by (simp add: sample_cells_def nth_append N M)
  moreover have "?N * 4 + ?M * 4 = 4 * (?N + ?M)" by simp
  ultimately show "read_u32 (sample_bytes r) (?N * 4 + ?M * 4) = Some (Status r)"
    using rd [of "?N + ?M"] by (simp add: ac_simps)
  have "?cs ! (?N + ?M + 1) = Counter r"
    by (simp add: sample_cells_def nth_append N M)
  moreover have "?N * 4 + ?M * 4 + 4 = 4 * (?N + ?M + 1)" by simp
  ultimately show "read_u32 (sample_bytes r) (?N * 4 + ?M * 4 + 4) = Some (Counter r)"
    using rd [of "?N + ?M + 1"] by (simp add: ac_simps)
qed

lemma int_result_small: "n < 2 ^ 31 \<Longrightarrow> int_result n = int n"
proof -
  assume "n < 2 ^ 31"
  then have "int n < 2 ^ 31" by (metis of_nat_less_numeral_power_cancel_iff)
  then have "signed_take_bit 31 (int n) = int n"
    by (intro signed_take_bit_int_eq_self) simp_all
  then show ?thesis
    by (simp add: int_result_def signed_of_nat)
qed

lemma drain_scenario:
  assumes h: "lookup drv h = Some d"
    and N: "CountEeg (Property d) = 32" and M: "CountAux (Property d) = 8"
    and empty: "queue (ring d) = []" and cap: "10 \<le> capacity (ring d)"
    and len: "length rs = 10" and wf: "\<forall>r \<in> set rs. well_formed (Property d) r"
  shows "case NVXGetData (fold (acquire h) rs drv) h 4096 of
           (n, out, drv') \<Rightarrow>
             n = 1680 \<and> out = concat (map sample_bytes rs) \<and> NVXGetData drv' h 4096 = (0, [], drv')"
proof -
  let ?d1 = "d\<lparr>ring := (ring d)\<lparr>queue := rs\<rparr>\<rparr>"
  let ?drv1 = "drv(h \<mapsto> ?d1)"
  let ?d2 = "?d1\<lparr>ring := (ring ?d1)\<lparr>queue := []\<rparr>, Samples := Samples ?d1 + word_of_nat (length rs)\<rparr>"
  let ?drv2 = "?drv1(h \<mapsto> ?d2)"
  from h have h0: "h \<noteq> 0" by (auto simp: lookup_def split: if_splits)
  have rsz: "record_size (Property d) = 168"
    by (simp add: record_size_def N M)
  have "fold push rs (ring d) = (ring d)\<lparr>queue := rs\<rparr>"
    using fold_push [of "ring d" rs] empty cap len by simp
  with fold_acquire [OF h, of rs] have drv1: "fold (acquire h) rs drv = ?drv1" by simp
  have l1: "lookup ?drv1 h = Some ?d1" using h0 by (simp add: lookup_def)
  have dr1: "drain (unat (4096 :: u32)) 168 (ring ?d1) = (rs, (ring ?d1)\<lparr>queue := []\<rparr>)"
    using drain_all [of 168 "ring ?d1" 4096] len by simp
  have outlen: "length (concat (map sample_bytes rs)) = 1680"
    using length_concat_samples [OF wf] len rsz by simp
  have g1: "NVXGetData ?drv1 h 4096 = (1680, concat (map sample_bytes rs), ?drv2)"
    unfolding NVXGetData_def l1 option.case
    using dr1 outlen by (simp add: rsz int_result_small del: fun_upd_apply)
  have l2: "lookup ?drv2 h = Some ?d2" using h0 by (simp add: lookup_def)
  have dr2: "drain n 168 (ring ?d2) = ([], ring ?d2)" for n
    by (rule drain_empty) simp
  have s2: "?d2\<lparr>ring := ring ?d2, Samples := Samples ?d2 + word_of_nat (length ([] :: sample list))\<rparr> = ?d2"
    by simp
  have u2: "?drv2(h \<mapsto> ?d2) = ?drv2" by simp
  have g2: "NVXGetData ?drv2 h 4096 = (0, [], ?drv2)"
    unfolding NVXGetData_def l2 option.case
    using dr2 [of "unat (4096 :: u32)"] s2 u2
    by (simp add: rsz int_result_def del: fun_upd_apply fun_upd_upd)
  show ?thesis
    unfolding drv1 g1 using g2 by simp
qed

text \<open>
  C1. A sample of a device with N EEG and M auxiliary channels is laid out without padding:
  N values of 4 bytes, M values of 4 bytes, the status word and the counter, so it has
  (N + M + 2) * 4 bytes, and reading at the offsets of the data format gives the fields back.
  For a device with 32 EEG and 8 auxiliary channels whose empty buffer holds at least 10
  samples: after 10 samples have been pushed, \<^verbatim>\<open>NVXGetData\<close> with a buffer of 4096 bytes
  returns 1680 and copies the 10 samples in order, and the next call returns 0.
\<close>

theorem sample_layout_and_drain:
  "(well_formed prop r \<longrightarrow>
       length (sample_bytes r) = (unat (CountEeg prop) + unat (CountAux prop) + 2) * 4
     \<and> (\<forall>i < unat (CountEeg prop). read_u32 (sample_bytes r) (4 * i) = Some (eeg r ! i))
     \<and> (\<forall>j < unat (CountAux prop).
           read_u32 (sample_bytes r) (unat (CountEeg prop) * 4 + 4 * j) = Some (aux r ! j))
     \<and> read_u32 (sample_bytes r) (unat (CountEeg prop) * 4 + unat (CountAux prop) * 4)
         = Some (Status r)
     \<and> read_u32 (sample_bytes r) (unat (CountEeg prop) * 4 + unat (CountAux prop) * 4 + 4)
         = Some (Counter r))
   \<and> (lookup drv h = Some d
       \<and> CountEeg (Property d) = 32 \<and> CountAux (Property d) = 8
       \<and> queue (ring d) = [] \<and> 10 \<le> capacity (ring d)
       \<and> length rs = 10 \<and> (\<forall>r \<in> set rs. well_formed (Property d) r) \<longrightarrow>
       fst (NVXGetData (fold (acquire h) rs drv) h 4096) = 1680
     \<and> fst (snd (NVXGetData (fold (acquire h) rs drv) h 4096)) = concat (map sample_bytes rs)
     \<and> fst (NVXGetData (snd (snd (NVXGetData (fold (acquire h) rs drv) h 4096))) h 4096) = 0)"
proof (intro conjI impI)
  assume wf: "well_formed prop r"
  from sample_layout [OF wf]
  show "length (sample_bytes r) = (unat (CountEeg prop) + unat (CountAux prop) + 2) * 4"
    and "\<forall>i < unat (CountEeg prop). read_u32 (sample_bytes r) (4 * i) = Some (eeg r ! i)"
    and "\<forall>j < unat (CountAux prop).
           read_u32 (sample_bytes r) (unat (CountEeg prop) * 4 + 4 * j) = Some (aux r ! j)"
    and "read_u32 (sample_bytes r) (unat (CountEeg prop) * 4 + unat (CountAux prop) * 4)
         = Some (Status r)"
    and "read_u32 (sample_bytes r) (unat (CountEeg prop) * 4 + unat (CountAux prop) * 4 + 4)
         = Some (Counter r)"
    by blast+
next
  assume a: "lookup drv h = Some d
       \<and> CountEeg (Property d) = 32 \<and> CountAux (Property d) = 8
       \<and> queue (ring d) = [] \<and> 10 \<le> capacity (ring d)
       \<and> length rs = 10 \<and> (\<forall>r \<in> set rs. well_formed (Property d) r)"
  have "case NVXGetData (fold (acquire h) rs drv) h 4096 of
           (n, out, drv') \<Rightarrow>
             n = 1680 \<and> out = concat (map sample_bytes rs) \<and> NVXGetData drv' h 4096 = (0, [], drv')"
    by (rule drain_scenario [of drv h d rs]) (insert a, simp_all)
  then show "fst (NVXGetData (fold (acquire h) rs drv) h 4096) = 1680"
    and "fst (snd (NVXGetData (fold (acquire h) rs drv) h 4096)) = concat (map sample_bytes rs)"
    and "fst (NVXGetData (snd (snd (NVXGetData (fold (acquire h) rs drv) h 4096))) h 4096) = 0"
    by (auto split: prod.splits)
qed

theorem sample_layout_and_drain_witness:
  "length (sample_bytes (tick 7)) = 168
   \<and> read_u32 (sample_bytes (tick 7)) 164 = Some 7
   \<and> fst (NVXGetData (fold (acquire 1) (map tick [0..<10]) driver_32_8) 1 4096) = 1680
   \<and> fst (NVXGetData (snd (snd (NVXGetData (fold (acquire 1) (map tick [0..<10]) driver_32_8) 1 4096))) 1 4096) = 0"
proof -
  have wf: "well_formed property_32_8 (tick k)" for k
    by (simp add: well_formed_def property_32_8_def tick_def)
  have hyp: "lookup driver_32_8 1 = Some device_32_8
       \<and> CountEeg (Property device_32_8) = 32 \<and> CountAux (Property device_32_8) = 8
       \<and> queue (ring device_32_8) = [] \<and> 10 \<le> capacity (ring device_32_8)
       \<and> length (map tick [0..<10]) = 10
       \<and> (\<forall>r \<in> set (map tick [0..<10]). well_formed (Property device_32_8) r)"
    using wf by (auto simp: lookup_def driver_32_8_def device_32_8_def property_32_8_def)
  note t = sample_layout_and_drain [of property_32_8 "tick 7" driver_32_8 1 device_32_8 "map tick [0..<10]"]
  from t wf [of 7] have l: "length (sample_bytes (tick 7)) = (unat (CountEeg property_32_8) + unat (CountAux property_32_8) + 2) * 4"
    and c: "read_u32 (sample_bytes (tick 7)) (unat (CountEeg property_32_8) * 4 + unat (CountAux property_32_8) * 4 + 4)
         = Some (Counter (tick 7))"
    by blast+
  from t hyp have d: "fst (NVXGetData (fold (acquire 1) (map tick [0..<10]) driver_32_8) 1 4096) = 1680"
    and e: "fst (NVXGetData (snd (snd (NVXGetData (fold (acquire 1) (map tick [0..<10]) driver_32_8) 1 4096))) 1 4096) = 0"
    by blast+
  from l have l': "length (sample_bytes (tick 7)) = 168" by (simp add: property_32_8_def)
  from c have c': "read_u32 (sample_bytes (tick 7)) 164 = Some 7"
    by (simp add: property_32_8_def tick_def)
  from l' c' d e show ?thesis by blast
qed


end
